theory Spec2Isabelle
  imports Complex_Main "HOL-Library.Log_Nat"
begin

section \<open>Data model of project2.cpp\<close>

text \<open>
  The program keeps two vectors in \<^verbatim>\<open>main\<close>: \<^verbatim>\<open>std::vector<Book> inventory\<close> and
  \<^verbatim>\<open>std::vector<User> users\<close>. A \<^verbatim>\<open>User\<close> holds \<^verbatim>\<open>std::vector<Book*> borrowedBooks\<close>,
  raw pointers obtained as \<^verbatim>\<open>&inventory[bookIndex]\<close>.

  Modelling decisions.
  \<^item> \<^verbatim>\<open>time_t\<close> is a signed integer type; it is modelled by \<open>int\<close>. The addition
    \<^verbatim>\<open>now + 5\<close> is the mathematical one (signed overflow is undefined in C++ and is
    not modelled).
  \<^item> In the records and in the methods of \<^verbatim>\<open>User\<close>, \<^verbatim>\<open>double\<close> is modelled by \<open>real\<close>:
    rounding, infinities and NaN are left out there. \<^verbatim>\<open>User::payFines\<close> is modelled a
    second time on binary64 values, with the rounding of the subtraction
    (\<open>payFines_double\<close>), for the property that depends on it.
  \<^item> A \<^verbatim>\<open>Book*\<close> is modelled by the number of the inventory slot it points to, counted
    in the storage that the inventory has at the moment, so pointer equality is
    equality of these numbers. A pointer into a storage that the inventory has left
    is a number that is no slot of the inventory (see \<open>serve\<close>).
  \<^item> \<^verbatim>\<open>time(0)\<close> is the only input from the environment. The successive readings
    are given by a function \<open>clk\<close> from the number of earlier readings to the value
    read, and the state counts the readings made so far.
  \<^item> Every method returns \<^verbatim>\<open>void\<close> and reports on \<^verbatim>\<open>std::cout\<close>; the model returns
    the lines written, as values of the type \<open>message\<close>.
\<close>

type_synonym time_t = int

record Book =
  title :: string
  author :: string
  ISBN :: string
  isAvailable :: bool
  dueDate :: time_t

record User =
  name :: string
  userID :: string
  borrowedBooks :: "nat list"
  fines :: real

record library =
  inventory :: "Book list"
  users :: "User list"
  reads :: nat

text \<open>The lines the methods write to \<^verbatim>\<open>std::cout\<close>.\<close>

datatype message =
    BookBorrowed              \<comment> \<open>\<^verbatim>\<open>Book borrowed successfully.\<close>\<close>
  | BookNotAvailable          \<comment> \<open>\<^verbatim>\<open>Book is not available.\<close>\<close>
  | ReturnedLate real         \<comment> \<open>\<^verbatim>\<open>Book returned late. Fine added: $\<close> and the fine\<close>
  | BookReturned              \<comment> \<open>\<^verbatim>\<open>Book returned successfully.\<close>\<close>
  | NotBorrowed               \<comment> \<open>\<^verbatim>\<open>You didn't borrow this book.\<close>\<close>
  | Paid real real            \<comment> \<open>\<^verbatim>\<open>Paid $\<close> amount \<^verbatim>\<open>towards fines. Remaining: $\<close> fines\<close>
  | PaymentExceeds            \<comment> \<open>\<^verbatim>\<open>Payment exceeds owed fines.\<close>\<close>
  | BookAdded                 \<comment> \<open>\<^verbatim>\<open>Book added to inventory.\<close>\<close>
  | BookRemoved               \<comment> \<open>\<^verbatim>\<open>Book removed from inventory.\<close>\<close>
  | BookNotFound              \<comment> \<open>\<^verbatim>\<open>Book not found in inventory.\<close>\<close>
  | UserRegistered            \<comment> \<open>\<^verbatim>\<open>User registered successfully.\<close>\<close>
  | NoUsersOrBooks            \<comment> \<open>\<^verbatim>\<open>No users or books available.\<close>\<close>
  | NoUsers                   \<comment> \<open>\<^verbatim>\<open>No users available.\<close>\<close>
  | InvalidSelection          \<comment> \<open>\<^verbatim>\<open>Invalid selection.\<close>\<close>
  | InvalidUserSelection      \<comment> \<open>\<^verbatim>\<open>Invalid user selection.\<close>\<close>
  | NoBooksBorrowed           \<comment> \<open>\<^verbatim>\<open>No books borrowed.\<close>\<close>
  | InvalidBookSelection      \<comment> \<open>\<^verbatim>\<open>Invalid book selection.\<close>\<close>

subsection \<open>Constructors\<close>

text \<open>\<^verbatim>\<open>Book::Book\<close>: \<^verbatim>\<open>isAvailable(true), dueDate(0)\<close>.\<close>

definition Book_ctor :: "string \<Rightarrow> string \<Rightarrow> string \<Rightarrow> Book" where
  "Book_ctor t a i =
     \<lparr>title = t, author = a, ISBN = i, isAvailable = True, dueDate = 0\<rparr>"

text \<open>\<^verbatim>\<open>User::User\<close>: \<^verbatim>\<open>fines(0.0)\<close>, no borrowed books.\<close>

definition User_ctor :: "string \<Rightarrow> string \<Rightarrow> User" where
  "User_ctor n i = \<lparr>name = n, userID = i, borrowedBooks = [], fines = 0\<rparr>"

subsection \<open>Library functions used by the program\<close>

text \<open>
  \<^verbatim>\<open>std::find_if\<close> on a vector: the position of the first element that satisfies the
  predicate, or the length of the vector (the \<^verbatim>\<open>end()\<close> iterator) when there is none.
\<close>

fun find_if :: "('a \<Rightarrow> bool) \<Rightarrow> 'a list \<Rightarrow> nat" where
  "find_if P [] = 0"
| "find_if P (x # xs) = (if P x then 0 else Suc (find_if P xs))"

text \<open>\<^verbatim>\<open>std::vector::erase(it)\<close> for an iterator at position \<open>i\<close>.\<close>

definition erase :: "nat \<Rightarrow> 'a list \<Rightarrow> 'a list" where
  "erase i xs = take i xs @ drop (Suc i) xs"

text \<open>\<^verbatim>\<open>difftime(t1, t0)\<close>: the difference \<open>t1 - t0\<close> in seconds, as a \<^verbatim>\<open>double\<close>.\<close>

definition difftime :: "time_t \<Rightarrow> time_t \<Rightarrow> real" where
  "difftime t1 t0 = real_of_int (t1 - t0)"

section \<open>The class User\<close>

text \<open>
  \<^verbatim>\<open>users[u].borrowBook(&inventory[p])\<close>. The statements of the method in their order:
  \<^verbatim>\<open>push_back\<close>, \<^verbatim>\<open>setAvailability(false)\<close>, \<^verbatim>\<open>time(0)\<close>, \<^verbatim>\<open>setDueDate(now + 5)\<close>.
  The objects exist in the program (\<open>u < length (users s)\<close> and
  \<open>p < length (inventory s)\<close>); the theorems below assume so.
\<close>

definition borrowBook :: "(nat \<Rightarrow> time_t) \<Rightarrow> nat \<Rightarrow> nat \<Rightarrow> library \<Rightarrow> message list \<times> library" where
  "borrowBook clk u p s =
     (if isAvailable (inventory s ! p) then
        let s1 = s\<lparr>users := (users s)[u := (users s ! u)
                       \<lparr>borrowedBooks := borrowedBooks (users s ! u) @ [p]\<rparr>]\<rparr>;
            s2 = s1\<lparr>inventory := (inventory s1)[p := (inventory s1 ! p)\<lparr>isAvailable := False\<rparr>]\<rparr>;
            now = clk (reads s2);
            s3 = s2\<lparr>reads := Suc (reads s2)\<rparr>;
            s4 = s3\<lparr>inventory := (inventory s3)[p := (inventory s3 ! p)\<lparr>dueDate := now + 5\<rparr>]\<rparr>
        in ([BookBorrowed], s4)
      else ([BookNotAvailable], s))"

text \<open>
  \<^verbatim>\<open>users[u].returnBook(&inventory[p])\<close>: \<^verbatim>\<open>std::find\<close> for the pointer, \<^verbatim>\<open>erase\<close>,
  \<^verbatim>\<open>setAvailability(true)\<close>, \<^verbatim>\<open>time(0)\<close>, the fine when \<^verbatim>\<open>now > book->getDueDate()\<close>,
  \<^verbatim>\<open>setDueDate(0)\<close>.
\<close>

definition returnBook :: "(nat \<Rightarrow> time_t) \<Rightarrow> nat \<Rightarrow> nat \<Rightarrow> library \<Rightarrow> message list \<times> library" where
  "returnBook clk u p s =
     (let it = find_if (\<lambda>q. q = p) (borrowedBooks (users s ! u)) in
      if it \<noteq> length (borrowedBooks (users s ! u)) then
        let s1 = s\<lparr>users := (users s)[u := (users s ! u)
                       \<lparr>borrowedBooks := erase it (borrowedBooks (users s ! u))\<rparr>]\<rparr>;
            s2 = s1\<lparr>inventory := (inventory s1)[p := (inventory s1 ! p)\<lparr>isAvailable := True\<rparr>]\<rparr>;
            now = clk (reads s2);
            s3 = s2\<lparr>reads := Suc (reads s2)\<rparr>;
            late = (now > dueDate (inventory s3 ! p));
            daysOverdue = difftime now (dueDate (inventory s3 ! p)) / 1;
            s4 = (if late then
                    s3\<lparr>users := (users s3)[u := (users s3 ! u)
                          \<lparr>fines := fines (users s3 ! u) + daysOverdue * 2\<rparr>]\<rparr>
                  else s3);
            out = (if late then [ReturnedLate (daysOverdue * 2)] else []);
            s5 = s4\<lparr>inventory := (inventory s4)[p := (inventory s4 ! p)\<lparr>dueDate := 0\<rparr>]\<rparr>
        in (out @ [BookReturned], s5)
      else ([NotBorrowed], s))"

text \<open>\<^verbatim>\<open>User::payFines\<close> touches the user object only.\<close>

definition payFines :: "real \<Rightarrow> User \<Rightarrow> message list \<times> User" where
  "payFines amount usr =
     (if amount \<le> fines usr then
        ([Paid amount (fines usr - amount)], usr\<lparr>fines := fines usr - amount\<rparr>)
      else ([PaymentExceeds], usr))"

subsection \<open>payFines on binary64 values\<close>









section \<open>The class Librarian\<close>

text \<open>\<^verbatim>\<open>Librarian::addBook\<close>: \<^verbatim>\<open>inventory.emplace_back(title, author, ISBN)\<close>, with no check.\<close>

definition addBook :: "Book list \<Rightarrow> string \<Rightarrow> string \<Rightarrow> string \<Rightarrow> message list \<times> Book list" where
  "addBook books t a i = ([BookAdded], books @ [Book_ctor t a i])"

text \<open>\<^verbatim>\<open>Librarian::removeBook\<close>: erases the first book whose ISBN is the given one.\<close>

definition removeBook :: "Book list \<Rightarrow> string \<Rightarrow> message list \<times> Book list" where
  "removeBook books i =
     (let it = find_if (\<lambda>b. ISBN b = i) books in
      if it \<noteq> length books then ([BookRemoved], erase it books)
      else ([BookNotFound], books))"

section \<open>Sequences of calls\<close>

text \<open>
  The calls that \<^verbatim>\<open>main\<close> makes on the lending state: menu entries 1 (add a book),
  4 (register a user), 5 (borrow), 6 (return) and 7 (pay fines). Borrowing checks the
  two selections as \<^verbatim>\<open>case 5\<close> does. \<open>ReturnBook u p\<close> is the call
  \<^verbatim>\<open>users[u].returnBook(&inventory[p])\<close> for any existing book, borrowed by that user
  or not (the menu only offers the books of the user's list). A call on a user or a
  book that does not exist is answered like an invalid selection and changes nothing.
  Removing a book is left out of these sequences: it moves the books that follow to
  other slots under the pointers that users hold. In \<open>exec\<close> the books stay where they
  are when a book is added; \<open>serve\<close> below also moves them as \<^verbatim>\<open>emplace_back\<close> does.
\<close>

datatype op =
    AddBook string string string
  | RegisterUser string string
  | BorrowBook nat nat
  | ReturnBook nat nat
  | PayFines nat real

definition init :: library where
  "init = \<lparr>inventory = [], users = [], reads = 0\<rparr>"

fun exec :: "(nat \<Rightarrow> time_t) \<Rightarrow> op \<Rightarrow> library \<Rightarrow> message list \<times> library" where
  "exec clk (AddBook t a i) s =
     (fst (addBook (inventory s) t a i), s\<lparr>inventory := snd (addBook (inventory s) t a i)\<rparr>)"
| "exec clk (RegisterUser n i) s =
     ([UserRegistered], s\<lparr>users := users s @ [User_ctor n i]\<rparr>)"
| "exec clk (BorrowBook u p) s =
     (if users s = [] \<or> inventory s = [] then ([NoUsersOrBooks], s)
      else if u < length (users s) \<and> p < length (inventory s) then borrowBook clk u p s
      else ([InvalidSelection], s))"
| "exec clk (ReturnBook u p) s =
     (if users s = [] then ([NoUsers], s)
      else if u < length (users s) \<and> p < length (inventory s) then returnBook clk u p s
      else ([InvalidSelection], s))"
| "exec clk (PayFines u amount) s =
     (if users s = [] then ([NoUsers], s)
      else if u < length (users s) then
        (fst (payFines amount (users s ! u)),
         s\<lparr>users := (users s)[u := snd (payFines amount (users s ! u))]\<rparr>)
      else ([InvalidSelection], s))"

fun run :: "(nat \<Rightarrow> time_t) \<Rightarrow> op list \<Rightarrow> library \<Rightarrow> library" where
  "run clk [] s = s"
| "run clk (c # cs) s = run clk cs (snd (exec clk c s))"

subsection \<open>The menu, with the relocation of the inventory\<close>

text \<open>
  \<^verbatim>\<open>main\<close> never reserves room in \<^verbatim>\<open>inventory\<close>, so \<^verbatim>\<open>emplace_back\<close> on a full vector
  moves the books to a new storage, and every \<^verbatim>\<open>Book*\<close> that a user holds then points
  into the storage that was left. The state of the program is the library and the
  capacity of \<^verbatim>\<open>inventory\<close>. The capacity chosen on growth is the implementation's
  affair: \<open>grow\<close> maps the old capacity to the new one (at least one more).

  Pointers are slot numbers of the present storage. When the storage is left, the
  pointers that users hold are shifted by the new capacity: they stay different from
  each other and from every pointer into the new storage, now and after later
  additions, and they point to no book.

  Entry 6 prints the title of every book of the user's list before it asks which one
  to return, so it dereferences every pointer of the list: with a pointer that points
  to no book this has undefined behaviour, and the model answers \<open>None\<close>. So does the
  direct call \<^verbatim>\<open>users[u].returnBook(&inventory[p])\<close> for a user or book that does not
  exist. Copying such a pointer and comparing it with another one (as \<^verbatim>\<open>push_back\<close>
  and \<^verbatim>\<open>std::find\<close> do) is taken to copy and compare the numbers.
\<close>

record program =
  lib :: library
  capacity :: nat

datatype request =
    Menu_AddBook string string string   \<comment> \<open>entry 1: title, author, ISBN\<close>
  | Menu_RegisterUser string string     \<comment> \<open>entry 4: name, user ID\<close>
  | Menu_BorrowBook nat nat             \<comment> \<open>entry 5: \<^verbatim>\<open>userIndex\<close>, \<^verbatim>\<open>bookIndex\<close> in the inventory\<close>
  | Menu_ReturnBook nat nat             \<comment> \<open>entry 6: \<^verbatim>\<open>userIndex\<close>, \<^verbatim>\<open>bookIndex\<close> in the user's list\<close>
  | Menu_PayFines nat real              \<comment> \<open>entry 7: \<^verbatim>\<open>userIndex\<close>, amount\<close>
  | Call_returnBook nat nat             \<comment> \<open>\<^verbatim>\<open>users[u].returnBook(&inventory[p])\<close>\<close>

definition program0 :: program where
  "program0 = \<lparr>lib = init, capacity = 0\<rparr>"

definition relocated :: "nat \<Rightarrow> User \<Rightarrow> User" where
  "relocated c usr = usr\<lparr>borrowedBooks := map (\<lambda>q. q + c) (borrowedBooks usr)\<rparr>"

definition on_lib :: "program \<Rightarrow> message list \<times> library \<Rightarrow> (message list \<times> program) option" where
  "on_lib st r = Some (fst r, st\<lparr>lib := snd r\<rparr>)"

fun serve :: "(nat \<Rightarrow> nat) \<Rightarrow> (nat \<Rightarrow> time_t) \<Rightarrow> request \<Rightarrow> program
    \<Rightarrow> (message list \<times> program) option" where
  "serve grow clk (Menu_AddBook t a i) st =
     (if length (inventory (lib st)) < capacity st then
        on_lib st (fst (addBook (inventory (lib st)) t a i),
          (lib st)\<lparr>inventory := snd (addBook (inventory (lib st)) t a i)\<rparr>)
      else
        Some (fst (addBook (inventory (lib st)) t a i),
          \<lparr>lib = (lib st)\<lparr>inventory := snd (addBook (inventory (lib st)) t a i),
               users := map (relocated (max (Suc (capacity st)) (grow (capacity st))))
                 (users (lib st))\<rparr>,
           capacity = max (Suc (capacity st)) (grow (capacity st))\<rparr>))"
| "serve grow clk (Menu_RegisterUser n i) st =
     on_lib st ([UserRegistered], (lib st)\<lparr>users := users (lib st) @ [User_ctor n i]\<rparr>)"
| "serve grow clk (Menu_BorrowBook u p) st =
     (if users (lib st) = [] \<or> inventory (lib st) = [] then Some ([NoUsersOrBooks], st)
      else if u < length (users (lib st)) \<and> p < length (inventory (lib st)) then
        on_lib st (borrowBook clk u p (lib st))
      else Some ([InvalidSelection], st))"
| "serve grow clk (Menu_ReturnBook u k) st =
     (if users (lib st) = [] then Some ([NoUsers], st)
      else if length (users (lib st)) \<le> u then Some ([InvalidUserSelection], st)
      else if borrowedBooks (users (lib st) ! u) = [] then Some ([NoBooksBorrowed], st)
      else if list_ex (\<lambda>q. length (inventory (lib st)) \<le> q) (borrowedBooks (users (lib st) ! u))
        then None
      else if k < length (borrowedBooks (users (lib st) ! u)) then
        on_lib st (returnBook clk u (borrowedBooks (users (lib st) ! u) ! k) (lib st))
      else Some ([InvalidBookSelection], st))"
| "serve grow clk (Menu_PayFines u amount) st =
     (if users (lib st) = [] then Some ([NoUsers], st)
      else if u < length (users (lib st)) then
        on_lib st (fst (payFines amount (users (lib st) ! u)),
          (lib st)\<lparr>users := (users (lib st))[u := snd (payFines amount (users (lib st) ! u))]\<rparr>)
      else Some ([InvalidSelection], st))"
| "serve grow clk (Call_returnBook u p) st =
     (if u < length (users (lib st)) \<and> p < length (inventory (lib st)) then
        on_lib st (returnBook clk u p (lib st))
      else None)"

fun session :: "(nat \<Rightarrow> nat) \<Rightarrow> (nat \<Rightarrow> time_t) \<Rightarrow> request list \<Rightarrow> program
    \<Rightarrow> program option" where
  "session grow clk [] st = Some st"
| "session grow clk (r # rs) st =
     (case serve grow clk r st of None \<Rightarrow> None | Some x \<Rightarrow> session grow clk rs (snd x))"

text \<open>The clock readings made by the borrowings of a session that succeed, in their order.\<close>

fun borrow_readings :: "(nat \<Rightarrow> nat) \<Rightarrow> (nat \<Rightarrow> time_t) \<Rightarrow> request list \<Rightarrow> program
    \<Rightarrow> time_t list" where
  "borrow_readings grow clk [] st = []"
| "borrow_readings grow clk (r # rs) st =
     (case serve grow clk r st of
        None \<Rightarrow> []
      | Some x \<Rightarrow> (if fst x = [BookBorrowed] then [clk (reads (lib st))] else [])
                   @ borrow_readings grow clk rs (snd x))"

text \<open>A growth policy for the examples: the capacity doubles (1 from 0).\<close>

definition doubling :: "nat \<Rightarrow> nat" where
  "doubling c = 2 * c"

subsection \<open>The inventory alone\<close>

text \<open>The calls of the librarian on the inventory alone: menu entries 1 and 2.\<close>

datatype catalog_op =
    Add string string string
  | Remove string

fun catalog_exec :: "catalog_op \<Rightarrow> Book list \<Rightarrow> Book list" where
  "catalog_exec (Add t a i) books = snd (addBook books t a i)"
| "catalog_exec (Remove i) books = snd (removeBook books i)"

fun catalog_run :: "catalog_op list \<Rightarrow> Book list \<Rightarrow> Book list" where
  "catalog_run [] books = books"
| "catalog_run (c # cs) books = catalog_run cs (catalog_exec c books)"

text \<open>Every \<open>Add\<close> of the sequence brings an ISBN that the inventory does not hold then.\<close>

fun fresh_adds :: "catalog_op list \<Rightarrow> Book list \<Rightarrow> bool" where
  "fresh_adds [] books = True"
| "fresh_adds (Add t a i # cs) books =
     (i \<notin> set (map ISBN books) \<and> fresh_adds cs (catalog_exec (Add t a i) books))"
| "fresh_adds (Remove i # cs) books = fresh_adds cs (catalog_exec (Remove i) books)"

subsection \<open>Properties of states, and inputs for the examples\<close>

text \<open>The due date is set (not the \<^verbatim>\<open>0\<close> of the constructor) exactly when the book is out.\<close>

definition due_iff_out :: "Book \<Rightarrow> bool" where
  "due_iff_out b = ((dueDate b \<noteq> 0) = (\<not> isAvailable b))"

text \<open>A clock whose successive readings are the elements of a list (and \<open>0\<close> after them).\<close>

definition readings :: "time_t list \<Rightarrow> nat \<Rightarrow> time_t" where
  "readings ts n = (if n < length ts then ts ! n else 0)"

text \<open>A library with one user and two books, the second one out and due at 105.\<close>

definition lib2 :: library where
  "lib2 =
     \<lparr>inventory =
        [\<lparr>title = ''Emma'', author = ''Austen'', ISBN = ''111'', isAvailable = True, dueDate = 0\<rparr>,
         \<lparr>title = ''Ulysses'', author = ''Joyce'', ISBN = ''222'', isAvailable = False, dueDate = 105\<rparr>],
      users = [\<lparr>name = ''Ann'', userID = ''U1'', borrowedBooks = [1], fines = 3\<rparr>],
      reads = 0\<rparr>"

text \<open>A library with one book and one user, both just created.\<close>

definition lib1 :: library where
  "lib1 =
     \<lparr>inventory = [Book_ctor ''Emma'' ''Austen'' ''111''],
      users = [User_ctor ''Ann'' ''U1''],
      reads = 0\<rparr>"

section \<open>Library functions\<close>

lemma find_if_le: "find_if P xs \<le> length xs"
  by (induction xs) auto

lemma find_if_end_iff: "find_if P xs = length xs \<longleftrightarrow> (\<forall>x \<in> set xs. \<not> P x)"
proof (induction xs)
  case Nil
  show ?case by simp
next
  case (Cons x xs)
  have "find_if P xs \<le> length xs" by (rule find_if_le)
  with Cons show ?case by auto
qed

lemma find_eq_end_iff: "find_if (\<lambda>q. q = p) xs = length xs \<longleftrightarrow> p \<notin> set xs"
  by (auto simp: find_if_end_iff)

lemma set_erase_subset: "set (erase i xs) \<subseteq> set xs"
proof -
  have "set (take i xs) \<subseteq> set xs" by (rule set_take_subset)
  moreover have "set (drop (Suc i) xs) \<subseteq> set xs" by (rule set_drop_subset)
  ultimately show ?thesis by (simp add: erase_def)
qed

lemma erase_Nil: "erase i [] = []"
  by (simp add: erase_def)

lemma erase_0: "erase 0 (x # xs) = xs"
  by (simp add: erase_def)

lemma erase_Suc: "erase (Suc i) (x # xs) = x # erase i xs"
  by (simp add: erase_def)

lemma distinct_map_erase: "distinct (map f xs) \<Longrightarrow> distinct (map f (erase i xs))"
proof (induction xs arbitrary: i)
  case Nil
  show ?case by (simp add: erase_Nil)
next
  case (Cons x xs)
  show ?case
  proof (cases i)
    case 0
    with Cons.prems show ?thesis by (simp add: erase_0)
  next
    case (Suc j)
    have "set (erase j xs) \<subseteq> set xs" by (rule set_erase_subset)
    with Cons.prems have "f x \<notin> f ` set (erase j xs)" by auto
    moreover from Cons have "distinct (map f (erase j xs))" by simp
    ultimately show ?thesis using Suc by (simp add: erase_Suc)
  qed
qed

lemma all_set_update: "\<forall>x \<in> set xs. P x \<Longrightarrow> P y \<Longrightarrow> \<forall>x \<in> set (xs[i := y]). P x"
  using set_update_subset_insert [of xs i y] by auto

section \<open>Borrowing and returning\<close>

text \<open>
  C2. Borrowing an available book writes \<^verbatim>\<open>Book borrowed successfully.\<close>, appends the
  pointer to the user's \<^verbatim>\<open>borrowedBooks\<close>, makes the book unavailable and sets its due
  date to \<open>now + 5\<close>, where \<open>now\<close> is the one reading of the clock that the call makes.
\<close>

theorem borrowBook_available:
  assumes "u < length (users s)" and "p < length (inventory s)"
    and "isAvailable (inventory s ! p)"
  shows "fst (borrowBook clk u p s) = [BookBorrowed]
    \<and> borrowedBooks (users (snd (borrowBook clk u p s)) ! u) = borrowedBooks (users s ! u) @ [p]
    \<and> \<not> isAvailable (inventory (snd (borrowBook clk u p s)) ! p)
    \<and> dueDate (inventory (snd (borrowBook clk u p s)) ! p) = clk (reads s) + 5
    \<and> reads (snd (borrowBook clk u p s)) = Suc (reads s)"
  using assms by (simp add: borrowBook_def Let_def)

theorem borrowBook_available_witness:
  "0 < length (users lib2) \<and> 0 < length (inventory lib2) \<and> isAvailable (inventory lib2 ! 0)
   \<and> fst (borrowBook (readings [100]) 0 0 lib2) = [BookBorrowed]
   \<and> borrowedBooks (users (snd (borrowBook (readings [100]) 0 0 lib2)) ! 0) = [1, 0]
   \<and> \<not> isAvailable (inventory (snd (borrowBook (readings [100]) 0 0 lib2)) ! 0)
   \<and> dueDate (inventory (snd (borrowBook (readings [100]) 0 0 lib2)) ! 0) = 105
   \<and> reads (snd (borrowBook (readings [100]) 0 0 lib2)) = 1"
proof -
  have a: "0 < length (users lib2)" by (simp add: lib2_def)
  have b: "0 < length (inventory lib2)" by (simp add: lib2_def)
  have c: "isAvailable (inventory lib2 ! 0)" by (simp add: lib2_def)
  have d: "borrowedBooks (users lib2 ! 0) = [1]" by (simp add: lib2_def)
  have e: "readings [100] (reads lib2) = 100" by (simp add: lib2_def readings_def)
  have f: "reads lib2 = 0" by (simp add: lib2_def)
  show ?thesis using a b c d e f borrowBook_available [OF a b c, of "readings [100]"] by simp
qed



text \<open>
  C4. A user borrows an available book and returns it in the next call, at a clock
  reading that is not after the due date set by the borrowing: the book is available
  again, its due date is 0, the user's fines are those before the borrowing, and the
  only line written by the return is \<^verbatim>\<open>Book returned successfully.\<close>
\<close>

theorem borrow_return_round_trip:
  assumes "u < length (users s)" and "p < length (inventory s)"
    and "isAvailable (inventory s ! p)"
    and "clk (Suc (reads s)) \<le> clk (reads s) + 5"
  shows "isAvailable (inventory (snd (returnBook clk u p (snd (borrowBook clk u p s)))) ! p)
    \<and> dueDate (inventory (snd (returnBook clk u p (snd (borrowBook clk u p s)))) ! p) = 0
    \<and> fines (users (snd (returnBook clk u p (snd (borrowBook clk u p s)))) ! u)
        = fines (users s ! u)
    \<and> fst (returnBook clk u p (snd (borrowBook clk u p s))) = [BookReturned]"
proof -
  have f: "find_if (\<lambda>q. q = p) (borrowedBooks (users s ! u) @ [p])
      \<noteq> length (borrowedBooks (users s ! u) @ [p])"
    by (simp only: find_eq_end_iff) simp
  show ?thesis using assms f
    by (simp add: returnBook_def borrowBook_def Let_def difftime_def)
qed

theorem borrow_return_round_trip_witness:
  "0 < length (users lib2) \<and> 0 < length (inventory lib2) \<and> isAvailable (inventory lib2 ! 0)
   \<and> readings [100, 105] (Suc (reads lib2)) \<le> readings [100, 105] (reads lib2) + 5
   \<and> isAvailable (inventory (snd (returnBook (readings [100, 105]) 0 0
         (snd (borrowBook (readings [100, 105]) 0 0 lib2)))) ! 0)
   \<and> dueDate (inventory (snd (returnBook (readings [100, 105]) 0 0
         (snd (borrowBook (readings [100, 105]) 0 0 lib2)))) ! 0) = 0
   \<and> fines (users (snd (returnBook (readings [100, 105]) 0 0
         (snd (borrowBook (readings [100, 105]) 0 0 lib2)))) ! 0) = 3"
proof -
  have a: "0 < length (users lib2)" by (simp add: lib2_def)
  have b: "0 < length (inventory lib2)" by (simp add: lib2_def)
  have c: "isAvailable (inventory lib2 ! 0)" by (simp add: lib2_def)
  have d: "readings [100, 105] (Suc (reads lib2)) \<le> readings [100, 105] (reads lib2) + 5"
    by (simp add: lib2_def readings_def)
  have f: "fines (users lib2 ! 0) = 3" by (simp add: lib2_def)
  show ?thesis using a b c d f borrow_return_round_trip [OF a b c d] by simp
qed

section \<open>Failure paths\<close>

text \<open>
  C5. Borrowing a book that is not available writes \<^verbatim>\<open>Book is not available.\<close> (the
  spec's result BookUnavailable) and changes nothing: the whole library (every user,
  every book and the number of clock readings) is the one before the call.
\<close>

theorem borrowBook_unavailable:
  assumes "u < length (users s)" and "p < length (inventory s)"
    and "\<not> isAvailable (inventory s ! p)"
  shows "borrowBook clk u p s = ([BookNotAvailable], s)"
  using assms by (simp add: borrowBook_def)

theorem borrowBook_unavailable_witness:
  "0 < length (users lib2) \<and> 1 < length (inventory lib2)
   \<and> \<not> isAvailable (inventory lib2 ! 1)
   \<and> borrowBook (readings [100]) 0 1 lib2 = ([BookNotAvailable], lib2)"
proof -
  have a: "0 < length (users lib2)" by (simp add: lib2_def)
  have b: "1 < length (inventory lib2)" by (simp add: lib2_def)
  have c: "\<not> isAvailable (inventory lib2 ! 1)" by (simp add: lib2_def)
  show ?thesis using a b c borrowBook_unavailable [OF a b c, of "readings [100]"] by simp
qed

text \<open>
  C6. Returning a book whose pointer is not in the user's \<^verbatim>\<open>borrowedBooks\<close> (the
  search compares pointers) writes \<^verbatim>\<open>You didn't borrow this book.\<close> (the spec's
  result NotBorrowedByUser) and changes nothing, whatever the book's due date and the
  clock are.
\<close>

theorem returnBook_not_borrowed:
  assumes "u < length (users s)" and "p < length (inventory s)"
    and "p \<notin> set (borrowedBooks (users s ! u))"
  shows "returnBook clk u p s = ([NotBorrowed], s)"
proof -
  from assms(3) have "find_if (\<lambda>q. q = p) (borrowedBooks (users s ! u))
      = length (borrowedBooks (users s ! u))"
    by (simp add: find_eq_end_iff)
  then show ?thesis by (simp add: returnBook_def)
qed

theorem returnBook_not_borrowed_witness:
  "0 < length (users lib2) \<and> 0 < length (inventory lib2)
   \<and> 0 \<notin> set (borrowedBooks (users lib2 ! 0))
   \<and> returnBook (readings [900]) 0 0 lib2 = ([NotBorrowed], lib2)"
proof -
  have a: "0 < length (users lib2)" by (simp add: lib2_def)
  have b: "0 < length (inventory lib2)" by (simp add: lib2_def)
  have c: "0 \<notin> set (borrowedBooks (users lib2 ! 0))" by (simp add: lib2_def)
  show ?thesis using a b c returnBook_not_borrowed [OF a b c, of "readings [900]"] by simp
qed

text \<open>
  C7. A payment greater than the fines is refused with \<^verbatim>\<open>Payment exceeds owed fines.\<close>
  (the spec's result OverpaymentRejected) and the user is unchanged; a payment equal to
  the fines is accepted and leaves fines of 0.
\<close>

theorem payFines_boundary:
  "(amount > fines usr \<longrightarrow> payFines amount usr = ([PaymentExceeds], usr))
   \<and> (amount = fines usr \<longrightarrow>
        fst (payFines amount usr) = [Paid amount 0] \<and> fines (snd (payFines amount usr)) = 0)"
  by (simp add: payFines_def)

theorem payFines_boundary_witness:
  "payFines 3.01 (users lib2 ! 0) = ([PaymentExceeds], users lib2 ! 0)
   \<and> fst (payFines 3 (users lib2 ! 0)) = [Paid 3 0]
   \<and> fines (snd (payFines 3 (users lib2 ! 0))) = 0"
  using payFines_boundary [of "users lib2 ! 0" "3.01"] payFines_boundary [of "users lib2 ! 0" 3]
  by (simp add: lib2_def)

subsection \<open>Payments that are not positive\<close>












section \<open>Invariants of the lending state\<close>

lemma inventory_borrowBook:
  assumes "p < length (inventory s)" and "isAvailable (inventory s ! p)"
  shows "inventory (snd (borrowBook clk u p s))
         = (inventory s)[p := (inventory s ! p)\<lparr>isAvailable := False, dueDate := clk (reads s) + 5\<rparr>]"
  using assms by (simp add: borrowBook_def Let_def)

lemma inventory_returnBook:
  assumes "p < length (inventory s)" and "p \<in> set (borrowedBooks (users s ! u))"
  shows "inventory (snd (returnBook clk u p s))
         = (inventory s)[p := (inventory s ! p)\<lparr>isAvailable := True, dueDate := 0\<rparr>]"
proof -
  from assms(2) have f: "find_if (\<lambda>q. q = p) (borrowedBooks (users s ! u))
      \<noteq> length (borrowedBooks (users s ! u))"
    by (simp add: find_eq_end_iff)
  show ?thesis using assms(1) f by (simp add: returnBook_def Let_def)
qed

lemma borrowBook_due_iff_out:
  assumes inv: "\<forall>b \<in> set (inventory s). due_iff_out b"
    and p: "p < length (inventory s)"
    and rd: "fst (borrowBook clk u p s) = [BookBorrowed] \<longrightarrow> clk (reads s) \<noteq> - 5"
  shows "\<forall>b \<in> set (inventory (snd (borrowBook clk u p s))). due_iff_out b"
proof (cases "isAvailable (inventory s ! p)")
  case True
  then have "fst (borrowBook clk u p s) = [BookBorrowed]" by (simp add: borrowBook_def Let_def)
  with rd have "clk (reads s) + 5 \<noteq> 0" by simp
  then have "due_iff_out ((inventory s ! p)\<lparr>isAvailable := False, dueDate := clk (reads s) + 5\<rparr>)"
    by (simp add: due_iff_out_def)
  with inv have "\<forall>b \<in> set ((inventory s)[p := (inventory s ! p)
      \<lparr>isAvailable := False, dueDate := clk (reads s) + 5\<rparr>]). due_iff_out b"
    by (rule all_set_update)
  with True p show ?thesis by (simp add: inventory_borrowBook)
next
  case False
  with inv show ?thesis by (simp add: borrowBook_def)
qed

lemma returnBook_due_iff_out:
  assumes inv: "\<forall>b \<in> set (inventory s). due_iff_out b" and p: "p < length (inventory s)"
  shows "\<forall>b \<in> set (inventory (snd (returnBook clk u p s))). due_iff_out b"
proof (cases "p \<in> set (borrowedBooks (users s ! u))")
  case True
  have "due_iff_out ((inventory s ! p)\<lparr>isAvailable := True, dueDate := 0\<rparr>)"
    by (simp add: due_iff_out_def)
  with inv have "\<forall>b \<in> set ((inventory s)[p := (inventory s ! p)
      \<lparr>isAvailable := True, dueDate := 0\<rparr>]). due_iff_out b"
    by (rule all_set_update)
  with True p show ?thesis by (simp add: inventory_returnBook)
next
  case False
  with inv show ?thesis by (simp add: returnBook_def find_eq_end_iff)
qed

lemma serve_due_iff_out:
  assumes sv: "serve grow clk r st = Some x"
    and inv: "\<forall>b \<in> set (inventory (lib st)). due_iff_out b"
    and rd: "fst x = [BookBorrowed] \<longrightarrow> clk (reads (lib st)) \<noteq> - 5"
  shows "\<forall>b \<in> set (inventory (lib (snd x))). due_iff_out b"
proof (cases r)
  case (Menu_AddBook t a i)
  with sv inv show ?thesis
    by (auto simp: on_lib_def addBook_def Book_ctor_def due_iff_out_def split: if_splits)
next
  case (Menu_RegisterUser n i)
  with sv inv show ?thesis by (auto simp: on_lib_def)
next
  case (Menu_BorrowBook u p)
  show ?thesis
  proof (cases "users (lib st) \<noteq> [] \<and> inventory (lib st) \<noteq> []
      \<and> u < length (users (lib st)) \<and> p < length (inventory (lib st))")
    case True
    with sv Menu_BorrowBook have x: "x = (fst (borrowBook clk u p (lib st)),
        st\<lparr>lib := snd (borrowBook clk u p (lib st))\<rparr>)"
      by (auto simp: on_lib_def)
    with rd have "fst (borrowBook clk u p (lib st)) = [BookBorrowed]
        \<longrightarrow> clk (reads (lib st)) \<noteq> - 5" by simp
    with inv True have "\<forall>b \<in> set (inventory (snd (borrowBook clk u p (lib st)))). due_iff_out b"
      by (intro borrowBook_due_iff_out) simp_all
    with x show ?thesis by simp
  next
    case False
    with sv Menu_BorrowBook inv show ?thesis by (auto split: if_splits)
  qed
next
  case (Menu_ReturnBook u k)
  let ?bs = "borrowedBooks (users (lib st) ! u)"
  show ?thesis
  proof (cases "snd x = st")
    case True
    with inv show ?thesis by simp
  next
    case False
    with sv Menu_ReturnBook have ok: "\<not> list_ex (\<lambda>q. length (inventory (lib st)) \<le> q) ?bs"
        "k < length ?bs" "x = (fst (returnBook clk u (?bs ! k) (lib st)),
           st\<lparr>lib := snd (returnBook clk u (?bs ! k) (lib st))\<rparr>)"
      by (auto simp: on_lib_def split: if_splits)
    from ok(2) have "?bs ! k \<in> set ?bs" by (rule nth_mem)
    with ok(1) have "\<not> length (inventory (lib st)) \<le> ?bs ! k"
      unfolding list_ex_iff by blast
    then have "?bs ! k < length (inventory (lib st))" by simp
    with inv have "\<forall>b \<in> set (inventory (snd (returnBook clk u (?bs ! k) (lib st)))). due_iff_out b"
      by (rule returnBook_due_iff_out)
    with ok(3) show ?thesis by simp
  qed
next
  case (Menu_PayFines u amount)
  with sv inv show ?thesis by (auto simp: on_lib_def split: if_splits)
next
  case (Call_returnBook u p)
  with sv have p: "p < length (inventory (lib st))"
    and x: "x = (fst (returnBook clk u p (lib st)), st\<lparr>lib := snd (returnBook clk u p (lib st))\<rparr>)"
    by (auto simp: on_lib_def split: if_splits)
  from inv p have "\<forall>b \<in> set (inventory (snd (returnBook clk u p (lib st)))). due_iff_out b"
    by (rule returnBook_due_iff_out)
  with x show ?thesis by simp
qed

lemma session_due_iff_out:
  assumes "session grow clk rs st = Some st'"
    and "\<forall>b \<in> set (inventory (lib st)). due_iff_out b"
    and "- 5 \<notin> set (borrow_readings grow clk rs st)"
  shows "\<forall>b \<in> set (inventory (lib st')). due_iff_out b"
  using assms
proof (induction rs arbitrary: st)
  case Nil
  then show ?case by simp
next
  case (Cons r rs)
  from Cons.prems(1) obtain x where sv: "serve grow clk r st = Some x"
    and rest: "session grow clk rs (snd x) = Some st'"
    by (auto split: option.splits)
  from Cons.prems(3) sv have rd: "fst x = [BookBorrowed] \<longrightarrow> clk (reads (lib st)) \<noteq> - 5"
    and later: "- 5 \<notin> set (borrow_readings grow clk rs (snd x))"
    by (auto split: if_splits)
  from sv Cons.prems(2) rd have "\<forall>b \<in> set (inventory (lib (snd x))). due_iff_out b"
    by (rule serve_due_iff_out)
  with rest show ?case using later by (rule Cons.IH)
qed

text \<open>
  C1. In every state that the program reaches from the empty library by adding books,
  registering users, borrowing, returning and paying fines (with the relocation of the
  inventory on growth, for any growth policy, and as long as no pointer to no book is
  used), each book of the inventory has a due date other than 0 exactly when it is not
  available; a book just constructed is available with due date 0. The clock readings
  are those of \<^verbatim>\<open>time(0)\<close>, the seconds since the epoch (or \<open>- 1\<close> on failure): no
  borrowing reads \<open>- 5\<close>, the one reading at which \<open>now + 5\<close> is the 0 of a book that
  is not out. Readings made by returns are not restricted.
\<close>

theorem due_iff_out_session:
  assumes "session grow clk rs program0 = Some st"
    and "- 5 \<notin> set (borrow_readings grow clk rs program0)"
  shows "(\<forall>b \<in> set (inventory (lib st)). due_iff_out b)
    \<and> isAvailable (Book_ctor t a i) \<and> dueDate (Book_ctor t a i) = 0"
proof -
  have "\<forall>b \<in> set (inventory (lib program0)). due_iff_out b"
    by (simp add: program0_def init_def)
  with assms(1) have "\<forall>b \<in> set (inventory (lib st)). due_iff_out b"
    using assms(2) by (rule session_due_iff_out)
  then show ?thesis by (simp add: Book_ctor_def)
qed

theorem due_iff_out_session_witness:
  "session doubling (readings [100, 103, 200])
     [Menu_AddBook ''Emma'' ''Austen'' ''111'', Menu_RegisterUser ''Ann'' ''U1'',
      Menu_BorrowBook 0 0, Menu_ReturnBook 0 0, Menu_BorrowBook 0 0,
      Menu_AddBook ''Ulysses'' ''Joyce'' ''222'', Call_returnBook 0 0] program0
   = Some \<lparr>lib = \<lparr>inventory =
        [\<lparr>title = ''Emma'', author = ''Austen'', ISBN = ''111'', isAvailable = False,
          dueDate = 205\<rparr>,
         \<lparr>title = ''Ulysses'', author = ''Joyce'', ISBN = ''222'', isAvailable = True,
          dueDate = 0\<rparr>],
        users = [\<lparr>name = ''Ann'', userID = ''U1'', borrowedBooks = [2], fines = 0\<rparr>],
        reads = 3\<rparr>, capacity = 2\<rparr>
   \<and> - 5 \<notin> set (borrow_readings doubling (readings [100, 103, 200])
     [Menu_AddBook ''Emma'' ''Austen'' ''111'', Menu_RegisterUser ''Ann'' ''U1'',
      Menu_BorrowBook 0 0, Menu_ReturnBook 0 0, Menu_BorrowBook 0 0,
      Menu_AddBook ''Ulysses'' ''Joyce'' ''222'', Call_returnBook 0 0] program0)
   \<and> due_iff_out \<lparr>title = ''Emma'', author = ''Austen'', ISBN = ''111'', isAvailable = False,
          dueDate = 205\<rparr>
   \<and> due_iff_out \<lparr>title = ''Ulysses'', author = ''Joyce'', ISBN = ''222'', isAvailable = True,
          dueDate = 0\<rparr>"
proof -
  have a: "session doubling (readings [100, 103, 200])
     [Menu_AddBook ''Emma'' ''Austen'' ''111'', Menu_RegisterUser ''Ann'' ''U1'',
      Menu_BorrowBook 0 0, Menu_ReturnBook 0 0, Menu_BorrowBook 0 0,
      Menu_AddBook ''Ulysses'' ''Joyce'' ''222'', Call_returnBook 0 0] program0
   = Some \<lparr>lib = \<lparr>inventory =
        [\<lparr>title = ''Emma'', author = ''Austen'', ISBN = ''111'', isAvailable = False,
          dueDate = 205\<rparr>,
         \<lparr>title = ''Ulysses'', author = ''Joyce'', ISBN = ''222'', isAvailable = True,
          dueDate = 0\<rparr>],
        users = [\<lparr>name = ''Ann'', userID = ''U1'', borrowedBooks = [2], fines = 0\<rparr>],
        reads = 3\<rparr>, capacity = 2\<rparr>"
    by (simp add: program0_def init_def on_lib_def addBook_def Book_ctor_def User_ctor_def
        borrowBook_def returnBook_def readings_def doubling_def relocated_def erase_def
        difftime_def Let_def)
  have b: "borrow_readings doubling (readings [100, 103, 200])
     [Menu_AddBook ''Emma'' ''Austen'' ''111'', Menu_RegisterUser ''Ann'' ''U1'',
      Menu_BorrowBook 0 0, Menu_ReturnBook 0 0, Menu_BorrowBook 0 0,
      Menu_AddBook ''Ulysses'' ''Joyce'' ''222'', Call_returnBook 0 0] program0 = [100, 200]"
    by (simp add: program0_def init_def on_lib_def addBook_def Book_ctor_def User_ctor_def
        borrowBook_def returnBook_def readings_def doubling_def relocated_def erase_def
        difftime_def Let_def)
  have c: "- 5 \<notin> set (borrow_readings doubling (readings [100, 103, 200])
     [Menu_AddBook ''Emma'' ''Austen'' ''111'', Menu_RegisterUser ''Ann'' ''U1'',
      Menu_BorrowBook 0 0, Menu_ReturnBook 0 0, Menu_BorrowBook 0 0,
      Menu_AddBook ''Ulysses'' ''Joyce'' ''222'', Call_returnBook 0 0] program0)"
    unfolding b by simp
  from due_iff_out_session [OF a c] have d: "due_iff_out \<lparr>title = ''Emma'', author = ''Austen'',
        ISBN = ''111'', isAvailable = False, dueDate = 205\<rparr>
      \<and> due_iff_out \<lparr>title = ''Ulysses'', author = ''Joyce'', ISBN = ''222'',
        isAvailable = True, dueDate = 0\<rparr>"
    by simp
  from a c d show ?thesis by blast
qed

lemma length_users_exec: "length (users s) \<le> length (users (snd (exec clk c s)))"
  by (cases c) (auto simp: borrowBook_def returnBook_def Let_def)

lemma fines_exec:
  assumes "u < length (users s)" and "0 \<le> fines (users s ! u)"
  shows "0 \<le> fines (users (snd (exec clk c s)) ! u)"
proof (cases c)
  case (AddBook t a i)
  with assms show ?thesis by simp
next
  case (RegisterUser n i)
  with assms show ?thesis by (simp add: nth_append)
next
  case (BorrowBook v p)
  with assms show ?thesis
    by (cases "u = v") (auto simp: borrowBook_def Let_def)
next
  case (ReturnBook v p)
  with assms show ?thesis
    by (cases "u = v") (auto simp: returnBook_def Let_def difftime_def)
next
  case (PayFines v amount)
  with assms show ?thesis
    by (cases "u = v") (auto simp: payFines_def)
qed

text \<open>
  C8. A user whose fines are not negative (a user just registered has fines 0) keeps
  fines that are not negative through every sequence of calls: adding books,
  registering users, borrowing, returning, and paying any real amount, by this user or
  by others.
\<close>

theorem fines_nonnegative:
  assumes "u < length (users s)" and "0 \<le> fines (users s ! u)"
  shows "0 \<le> fines (users (run clk ops s) ! u)"
  using assms
proof (induction ops arbitrary: s)
  case Nil
  then show ?case by simp
next
  case (Cons c cs)
  have "u < length (users (snd (exec clk c s)))"
    using Cons.prems(1) length_users_exec [of s clk c] by simp
  moreover have "0 \<le> fines (users (snd (exec clk c s)) ! u)"
    using Cons.prems by (rule fines_exec)
  ultimately show ?case using Cons.IH by simp
qed

theorem fines_nonnegative_witness:
  "0 < length (users lib1) \<and> fines (users lib1 ! 0) = 0
   \<and> 0 \<le> fines (users (run (readings [100, 110])
        [BorrowBook 0 0, ReturnBook 0 0, PayFines 0 (- 4), PayFines 0 14, PayFines 0 1] lib1) ! 0)"
proof -
  have a: "0 < length (users lib1)" by (simp add: lib1_def)
  have b: "fines (users lib1 ! 0) = 0" by (simp add: lib1_def User_ctor_def)
  have c: "0 \<le> fines (users lib1 ! 0)" using b by simp
  have d: "0 \<le> fines (users (run (readings [100, 110])
        [BorrowBook 0 0, ReturnBook 0 0, PayFines 0 (- 4), PayFines 0 14, PayFines 0 1] lib1) ! 0)"
    by (rule fines_nonnegative [OF a c])
  from a b d show ?thesis by blast
qed

section \<open>The inventory\<close>

lemma catalog_exec_distinct:
  assumes "distinct (map ISBN books)" and "fresh_adds (c # cs) books"
  shows "distinct (map ISBN (catalog_exec c books))"
proof (cases c)
  case (Add t a i)
  with assms show ?thesis by (simp add: addBook_def Book_ctor_def)
next
  case (Remove i)
  with assms(1) show ?thesis by (simp add: removeBook_def Let_def distinct_map_erase)
qed

text \<open>
  C9, as stated, fails: \<^verbatim>\<open>addBook\<close> appends without looking at the inventory, so adding
  two books with one ISBN gives an inventory that holds this ISBN twice.
\<close>

theorem isbn_unique_counterexample:
  "\<not> distinct (map ISBN (catalog_run
       [Add ''Emma'' ''Austen'' ''111'', Add ''Ulysses'' ''Joyce'' ''111''] []))"
  by (simp add: addBook_def Book_ctor_def)

text \<open>
  C9, amended. In the inventory reached from the empty one by a sequence of \<^verbatim>\<open>addBook\<close>
  and \<^verbatim>\<open>removeBook\<close> calls in which every \<^verbatim>\<open>addBook\<close> brings an ISBN that the inventory
  does not hold at that moment, no two books have the same ISBN.
\<close>

theorem isbn_unique_fresh_adds:
  assumes "fresh_adds ops []"
  shows "distinct (map ISBN (catalog_run ops []))"
proof -
  have "distinct (map ISBN books) \<Longrightarrow> fresh_adds ops books
      \<Longrightarrow> distinct (map ISBN (catalog_run ops books))" for books
  proof (induction ops arbitrary: books)
    case Nil
    then show ?case by simp
  next
    case (Cons c cs)
    from Cons.prems have d: "distinct (map ISBN (catalog_exec c books))"
      by (rule catalog_exec_distinct)
    from Cons.prems(2) have "fresh_adds cs (catalog_exec c books)"
      by (cases c) simp_all
    with d show ?case using Cons.IH by simp
  qed
  with assms show ?thesis by simp
qed

theorem isbn_unique_fresh_adds_witness:
  "fresh_adds [Add ''Emma'' ''Austen'' ''111'', Add ''Ulysses'' ''Joyce'' ''222'',
               Remove ''111'', Add ''Emma'' ''Austen'' ''111''] []
   \<and> length (catalog_run [Add ''Emma'' ''Austen'' ''111'', Add ''Ulysses'' ''Joyce'' ''222'',
               Remove ''111'', Add ''Emma'' ''Austen'' ''111''] []) = 2
   \<and> distinct (map ISBN (catalog_run [Add ''Emma'' ''Austen'' ''111'',
               Add ''Ulysses'' ''Joyce'' ''222'', Remove ''111'', Add ''Emma'' ''Austen'' ''111''] []))"
proof -
  have a: "fresh_adds [Add ''Emma'' ''Austen'' ''111'', Add ''Ulysses'' ''Joyce'' ''222'',
               Remove ''111'', Add ''Emma'' ''Austen'' ''111''] []"
    by (simp add: addBook_def removeBook_def Book_ctor_def erase_def)
  have b: "length (catalog_run [Add ''Emma'' ''Austen'' ''111'', Add ''Ulysses'' ''Joyce'' ''222'',
               Remove ''111'', Add ''Emma'' ''Austen'' ''111''] []) = 2"
    by (simp add: addBook_def removeBook_def Book_ctor_def erase_def)
  show ?thesis using a b isbn_unique_fresh_adds [OF a] by simp
qed

end
